theory Spec2Isabelle
  imports Main "HOL-Library.Multiset"
begin

section \<open>Ephemeral chat backend: a model of \<^verbatim>\<open>backend/server.py\<close>\<close>

text \<open>
  The server keeps three pieces of mutable state: the \<^verbatim>\<open>db.messages\<close> collection, the
  files below \<^verbatim>\<open>uploads/\<close>, and the list \<^verbatim>\<open>manager.active_connections\<close>.  Each handler and each
  background task is a function from the state to the new state.  What the environment decides
  (clock readings, fresh UUIDs, whether a socket send raises, what the webhook answers) is an
  explicit argument.  The database and the file system are taken to succeed; logging is left out.

  Strings are lists of 8-bit characters, read as code points below 256.  A \<^verbatim>\<open>datetime\<close> is the
  number of microseconds since \<^verbatim>\<open>datetime.min\<close>; the store keeps dates in whole milliseconds.
\<close>

subsection \<open>File names: \<^verbatim>\<open>Path(filename).suffix.lower()\<close>\<close>

text \<open>\<^verbatim>\<open>str.split(sep)\<close> for a one-character separator.\<close>

fun split_sep :: "char \<Rightarrow> string \<Rightarrow> string list" where
  "split_sep sep [] = [[]]"
| "split_sep sep (c # cs) =
     (if c = sep then [] # split_sep sep cs
      else (case split_sep sep cs of
              [] \<Rightarrow> [[c]]
            | p # ps \<Rightarrow> (c # p) # ps))"

text \<open>
  The parts of a POSIX path: the components between slashes, without the empty ones and
  without the \<^verbatim>\<open>.\<close> ones.  \<^verbatim>\<open>Path.name\<close> is the last part, or the empty string.
\<close>

definition path_parts :: "string \<Rightarrow> string list" where
  "path_parts s = filter (\<lambda>p. p \<noteq> [] \<and> p \<noteq> ''.'') (split_sep CHR ''/'' s)"

definition path_name :: "string \<Rightarrow> string" where
  "path_name s = (case path_parts s of [] \<Rightarrow> [] | p # ps \<Rightarrow> last (p # ps))"

text \<open>\<^verbatim>\<open>str.rfind(c)\<close>: the index of the last occurrence, \<open>None\<close> for Python's \<open>-1\<close>.\<close>

fun rfind :: "char \<Rightarrow> string \<Rightarrow> nat option" where
  "rfind c [] = None"
| "rfind c (x # xs) =
     (case rfind c xs of
        Some i \<Rightarrow> Some (Suc i)
      | None \<Rightarrow> if x = c then Some 0 else None)"

text \<open>
  \<^verbatim>\<open>Path.suffix\<close>: with \<open>i\<close> the last dot of the name, the suffix is \<^verbatim>\<open>name[i:]\<close> when
  \<^verbatim>\<open>0 < i < len(name) - 1\<close> and the empty string otherwise.
\<close>

definition path_suffix :: "string \<Rightarrow> string" where
  "path_suffix s =
     (let name = path_name s in
      case rfind CHR ''.'' name of
        None \<Rightarrow> []
      | Some i \<Rightarrow> if 0 < i \<and> Suc i < length name then drop i name else [])"

text \<open>
  \<^verbatim>\<open>str.lower()\<close> on code points below 256: the letters A to Z and the Latin-1 capitals
  (192 to 222 without the multiplication sign 215) move up by 32.
\<close>

definition lower_char :: "char \<Rightarrow> char" where
  "lower_char c =
     (let n = (of_char c :: nat) in
      if (65 \<le> n \<and> n \<le> 90) \<or> (192 \<le> n \<and> n \<le> 222 \<and> n \<noteq> 215)
      then char_of (n + 32) else c)"

definition lower :: "string \<Rightarrow> string" where
  "lower s = map lower_char s"

definition BLOCKED_EXTENSIONS :: "string set" where
  "BLOCKED_EXTENSIONS = {''.php'', ''.phtml'', ''.sh''}"

definition is_file_allowed :: "string \<Rightarrow> bool" where
  "is_file_allowed filename = (lower (path_suffix filename) \<notin> BLOCKED_EXTENSIONS)"

subsection \<open>Messages, events and the state\<close>

record message =
  id_field :: string
  content :: string
  username :: string
  timestamp :: int
  ttl_seconds :: "int option"
  expires_at :: "int option"
  file_path :: "string option"
  file_name :: "string option"
  file_size :: "nat option"

datatype event =
    NewMessage message
  | Cleanup nat
  | AutoClear string

text \<open>What \<^verbatim>\<open>send_to_discord_webhook\<close> posts: a file with optional form data, or a JSON text.\<close>

datatype relay_request =
    FilePost string "string option"
  | JsonPost string

text \<open>What \<^verbatim>\<open>requests.post\<close> does: it raises, or it answers with a status code.\<close>

datatype post_outcome = PostRaises | PostStatus nat

text \<open>The calls that leave the process, in the order they are made.\<close>

datatype action =
    FileWrite string
  | FileUnlink string
  | DbInsert message
  | DbDeleteMany nat
  | Relay relay_request bool
  | Broadcast event

datatype error =
    RequestValidationError
  | HTTPException nat string
  | OverflowError
  | ValueError

text \<open>
  A connection is named by a number.  \<open>broken\<close> tells for which connections
  \<^verbatim>\<open>send_text\<close> raises; \<open>received\<close> lists the deliveries that succeeded.
\<close>

record state =
  messages :: "message list"
  files :: "string \<Rightarrow> string option"
  active_connections :: "nat list"
  broken :: "nat \<Rightarrow> bool"
  received :: "(nat \<times> event) list"
  trace :: "action list"

subsection \<open>\<^verbatim>\<open>ConnectionManager\<close>\<close>

definition connect :: "nat \<Rightarrow> state \<Rightarrow> state" where
  "connect websocket st = st\<lparr>active_connections := active_connections st @ [websocket]\<rparr>"

text \<open>\<^verbatim>\<open>list.remove\<close> raises \<^verbatim>\<open>ValueError\<close> when the element is not in the list.\<close>

definition disconnect :: "nat \<Rightarrow> state \<Rightarrow> error + state" where
  "disconnect websocket st =
     (if websocket \<in> set (active_connections st)
      then Inr (st\<lparr>active_connections := remove1 websocket (active_connections st)\<rparr>)
      else Inl ValueError)"

text \<open>
  The \<^verbatim>\<open>for\<close> loop of \<^verbatim>\<open>broadcast\<close> runs over the list it mutates.  Python's list iterator
  keeps an index \<open>i\<close>: it yields \<^verbatim>\<open>conns[i]\<close> while \<^verbatim>\<open>i < len(conns)\<close> and then moves to
  \<open>i + 1\<close>, whatever happened to the list in the body.
\<close>

function broadcast_loop ::
  "(nat \<Rightarrow> bool) \<Rightarrow> event \<Rightarrow> nat \<Rightarrow> nat list \<Rightarrow> (nat \<times> event) list
     \<Rightarrow> nat list \<times> (nat \<times> event) list" where
  "broadcast_loop brk ev i conns log =
     (if i < length conns then
        (let connection = conns ! i in
         if brk connection
         then broadcast_loop brk ev (Suc i) (remove1 connection conns) log
         else broadcast_loop brk ev (Suc i) conns (log @ [(connection, ev)]))
      else (conns, log))"
  by pat_completeness auto
termination
proof (relation "measure (\<lambda>(brk, ev, i, conns, log). length conns - i)")
  show "wf (measure (\<lambda>(brk, ev, i, conns, log). length conns - i))"
    by simp
next
  fix brk :: "nat \<Rightarrow> bool" and ev :: event and i :: nat and conns :: "nat list"
    and log :: "(nat \<times> event) list" and x :: nat
  assume "i < length conns" and "x = conns ! i"
  then have "x \<in> set conns" by simp
  then have "length (remove1 x conns) = length conns - 1"
    by (simp add: length_remove1)
  with \<open>i < length conns\<close>
  show "((brk, ev, Suc i, remove1 x conns, log), (brk, ev, i, conns, log))
          \<in> measure (\<lambda>(brk, ev, i, conns, log). length conns - i)"
    by simp
next
  fix brk :: "nat \<Rightarrow> bool" and ev :: event and i :: nat and conns :: "nat list"
    and log :: "(nat \<times> event) list" and x :: nat
  assume "i < length conns"
  then show "((brk, ev, Suc i, conns, log @ [(x, ev)]), (brk, ev, i, conns, log))
          \<in> measure (\<lambda>(brk, ev, i, conns, log). length conns - i)"
    by simp
qed

declare broadcast_loop.simps [simp del]

definition broadcast :: "event \<Rightarrow> state \<Rightarrow> state" where
  "broadcast ev st =
     (let (conns, log) = broadcast_loop (broken st) ev 0 (active_connections st) (received st)
      in st\<lparr>active_connections := conns, received := log,
            trace := trace st @ [Broadcast ev]\<rparr>)"

subsection \<open>Clock arithmetic\<close>

text \<open>
  \<^verbatim>\<open>datetime.max\<close> is the last microsecond of the year 9999, day 3652059 of the calendar.
  \<^verbatim>\<open>now + timedelta(seconds=n)\<close> raises \<^verbatim>\<open>OverflowError\<close> when the sum leaves the range of
  \<^verbatim>\<open>datetime\<close>; a \<^verbatim>\<open>timedelta\<close> too large to build raises the same error, and only for sums
  that are out of range anyway.
\<close>

definition DATETIME_MAX :: int where
  "DATETIME_MAX = 3652059 * 86400 * 1000000 - 1"

definition datetime_add :: "int \<Rightarrow> int \<Rightarrow> error + int" where
  "datetime_add now seconds =
     (let r = now + seconds * 1000000 in
      if 0 \<le> r \<and> r \<le> DATETIME_MAX then Inr r else Inl OverflowError)"

text \<open>
  The collection holds BSON dates, which count whole milliseconds.  The driver cuts the
  microseconds below the millisecond from every \<^verbatim>\<open>datetime\<close> it encodes, in a document it
  inserts and in a query it sends.  The epoch lies a whole number of seconds after
  \<^verbatim>\<open>datetime.min\<close>, so the cut is the same in both countings.
\<close>

definition bson_date :: "int \<Rightarrow> int" where
  "bson_date t = t - t mod 1000"

definition bson_document :: "message \<Rightarrow> message" where
  "bson_document m =
     m\<lparr>timestamp := bson_date (timestamp m),
       expires_at := map_option bson_date (expires_at m)\<rparr>"

subsection \<open>The expiration sweeper: \<^verbatim>\<open>cleanup_expired_messages\<close>\<close>

text \<open>
  The query \<^verbatim>\<open>{"expires_at": {"$lt": current_time}}\<close> matches a document whose
  \<^verbatim>\<open>expires_at\<close> is a date before \<open>current_time\<close>, both as BSON dates; a null never
  matches a comparison.
\<close>

definition expired :: "int \<Rightarrow> message \<Rightarrow> bool" where
  "expired current_time m =
     (case expires_at m of
        None \<Rightarrow> False
      | Some e \<Rightarrow> bson_date e < bson_date current_time)"

text \<open>\<^verbatim>\<open>delete_many\<close> returns what is left and the \<^verbatim>\<open>deleted_count\<close>.\<close>

definition delete_many :: "(message \<Rightarrow> bool) \<Rightarrow> message list \<Rightarrow> message list \<times> nat" where
  "delete_many q ms = (filter (\<lambda>m. \<not> q m) ms, length (filter q ms))"

text \<open>
  The body of the second loop: \<^verbatim>\<open>if file_path.exists(): file_path.unlink()\<close>.  The query
  before it returns only documents with a \<^verbatim>\<open>file_path\<close>.
\<close>

definition unlink_file :: "state \<Rightarrow> message \<Rightarrow> state" where
  "unlink_file st msg =
     (case file_path msg of
        None \<Rightarrow> st
      | Some p \<Rightarrow>
          if files st p \<noteq> None
          then st\<lparr>files := (files st)(p := None), trace := trace st @ [FileUnlink p]\<rparr>
          else st)"

text \<open>One pass of the \<^verbatim>\<open>while True\<close> loop, with the clock reading it starts from.\<close>

definition cleanup_pass :: "int \<Rightarrow> state \<Rightarrow> state" where
  "cleanup_pass current_time st =
     (let (kept, deleted_count) = delete_many (expired current_time) (messages st);
          st1 = st\<lparr>messages := kept, trace := trace st @ [DbDeleteMany deleted_count]\<rparr>;
          st2 = (if deleted_count > 0 then broadcast (Cleanup deleted_count) st1 else st1);
          expired_messages =
            filter (\<lambda>m. expired current_time m \<and> file_path m \<noteq> None) (messages st2)
      in foldl unlink_file st2 expired_messages)"

text \<open>The loop, run for as many passes as there are clock readings.\<close>

fun cleanup_expired_messages :: "int list \<Rightarrow> state \<Rightarrow> state" where
  "cleanup_expired_messages [] st = st"
| "cleanup_expired_messages (t # ts) st = cleanup_expired_messages ts (cleanup_pass t st)"

subsection \<open>The hourly reset: \<^verbatim>\<open>auto_clear_all_messages\<close>\<close>

text \<open>\<^verbatim>\<open>UPLOAD_DIR.glob("*")\<close>: the entries directly below \<^verbatim>\<open>uploads/\<close>.\<close>

definition in_upload_dir :: "string \<Rightarrow> bool" where
  "in_upload_dir p =
     (take 8 p = ''uploads/'' \<and> drop 8 p \<noteq> [] \<and> CHR ''/'' \<notin> set (drop 8 p))"

definition auto_clear_pass :: "state \<Rightarrow> state" where
  "auto_clear_pass st =
     (let (kept, deleted_count) = delete_many (\<lambda>m. True) (messages st);
          st1 = st\<lparr>messages := kept, trace := trace st @ [DbDeleteMany deleted_count]\<rparr>;
          st2 = st1\<lparr>files := (\<lambda>p. if in_upload_dir p then None else files st1 p)\<rparr>
      in broadcast
           (AutoClear ''All messages have been automatically cleared (1-hour cleanup)'') st2)"

subsection \<open>The relay: \<^verbatim>\<open>send_to_discord_webhook\<close>\<close>

text \<open>The characters \<^verbatim>\<open>str.strip()\<close> removes, among the code points below 256.\<close>

definition is_space :: "char \<Rightarrow> bool" where
  "is_space c =
     (let n = (of_char c :: nat) in
      (9 \<le> n \<and> n \<le> 13) \<or> (28 \<le> n \<and> n \<le> 32) \<or> n = 133 \<or> n = 160)"

text \<open>
  The function posts a request and returns whether the answer was 200 or 204; an exception
  of \<^verbatim>\<open>requests.post\<close> is caught and gives \<open>False\<close>.
\<close>

definition send_to_discord_webhook ::
  "(string \<Rightarrow> string option) \<Rightarrow> post_outcome \<Rightarrow> string \<Rightarrow> string option \<Rightarrow> string option
     \<Rightarrow> relay_request \<times> bool" where
  "send_to_discord_webhook fs outcome text fpath fname =
     (let request =
        (case fpath of
           None \<Rightarrow> JsonPost text
         | Some p \<Rightarrow>
             if p \<noteq> [] \<and> fs p \<noteq> None
             then FilePost
                    (case fname of None \<Rightarrow> path_name p
                     | Some n \<Rightarrow> if n \<noteq> [] then n else path_name p)
                    (if list_ex (\<lambda>c. \<not> is_space c) text then Some text else None)
             else JsonPost text)
      in case outcome of
           PostRaises \<Rightarrow> (request, False)
         | PostStatus code \<Rightarrow> (request, code = 200 \<or> code = 204))"

subsection \<open>Ingestion: \<^verbatim>\<open>create_message\<close>\<close>

text \<open>
  The form of a POST request.  \<open>None\<close> is a field the request does not carry.
  \<^verbatim>\<open>Form(...)\<close> makes \<open>content\<close> and \<open>username\<close> required, the others have defaults.
\<close>

record upload =
  filename :: "string option"
  body :: string

record form =
  form_content :: "string option"
  form_username :: "string option"
  form_ttl_seconds :: "int option"
  form_send_to_discord :: "bool option"
  form_file :: "upload option"

text \<open>
  What the environment supplies during one call: the clock when \<open>expires_at\<close> is computed,
  the UUID of the file, then the UUID and the clock of the \<^verbatim>\<open>Message\<close> defaults, and the
  answer of the webhook.
\<close>

record create_env =
  clock_expiry :: int
  file_uuid :: string
  message_uuid :: string
  clock_timestamp :: int
  discord_response :: post_outcome

text \<open>
  A required form field: the framework takes a field that is present but empty for a
  missing one, and answers a missing required field with the status 422 before the handler
  runs.
\<close>

definition form_required :: "string option \<Rightarrow> string option" where
  "form_required field =
     (case field of None \<Rightarrow> None | Some v \<Rightarrow> if v = [] then None else Some v)"

text \<open>\<^verbatim>\<open>file and file.filename\<close>: the upload counts when its file name is a non-empty string.\<close>

definition attachment_of :: "form \<Rightarrow> (string \<times> string) option" where
  "attachment_of req =
     (case form_file req of
        None \<Rightarrow> None
      | Some f \<Rightarrow>
          (case filename f of
             None \<Rightarrow> None
           | Some n \<Rightarrow> if n = [] then None else Some (n, body f)))"

definition create_message :: "create_env \<Rightarrow> form \<Rightarrow> state \<Rightarrow> (error + message) \<times> state" where
  "create_message env req st =
     (case (form_required (form_content req), form_required (form_username req)) of
        (Some content_v, Some username_v) \<Rightarrow>
          (let ttl = (case form_ttl_seconds req of None \<Rightarrow> 3600 | Some t \<Rightarrow> t);
               send_to_discord = (case form_send_to_discord req of None \<Rightarrow> False | Some b \<Rightarrow> b)
           in
           if (case attachment_of req of None \<Rightarrow> False | Some (n, bytes) \<Rightarrow> \<not> is_file_allowed n)
           then (Inl (HTTPException 400 ''File type not allowed''), st)
           else
             (case datetime_add (clock_expiry env) ttl of
                Inl e \<Rightarrow> (Inl e, st)
              | Inr expires \<Rightarrow>
                  (let (fpath, fname, fsize, st1) =
                         (case attachment_of req of
                            None \<Rightarrow> (None, None, None, st)
                          | Some (n, bytes) \<Rightarrow>
                              (let p = ''uploads/'' @ file_uuid env @ path_suffix n in
                               (Some p, Some n, Some (length bytes),
                                st\<lparr>files := (files st)(p \<mapsto> bytes),
                                   trace := trace st @ [FileWrite p]\<rparr>)));
                       message =
                         \<lparr>id_field = message_uuid env, content = content_v,
                          username = username_v, timestamp = clock_timestamp env,
                          ttl_seconds = Some ttl, expires_at = Some expires,
                          file_path = fpath, file_name = fname, file_size = fsize\<rparr>;
                       st2 = st1\<lparr>messages := messages st1 @ [bson_document message],
                                 trace := trace st1 @ [DbInsert message]\<rparr>;
                       st3 =
                         (if send_to_discord then
                            (let (request, discord_success) =
                                   send_to_discord_webhook (files st2) (discord_response env)
                                     (''**'' @ username_v @ ''**: '' @ content_v) fpath fname
                             in st2\<lparr>trace := trace st2 @ [Relay request discord_success]\<rparr>)
                          else st2)
                   in (Inr message, broadcast (NewMessage message) st3))))
      | _ \<Rightarrow> (Inl RequestValidationError, st))"

subsection \<open>Retrieval: \<^verbatim>\<open>get_messages\<close>\<close>

text \<open>
  The query is \<^verbatim>\<open>expires_at > current_time\<close> (as BSON dates) or \<^verbatim>\<open>expires_at\<close> null, sorted by
  \<^verbatim>\<open>timestamp\<close> ascending, and \<^verbatim>\<open>to_list(1000)\<close> keeps at most 1000 documents.  Documents
  with equal timestamps stay in insertion order here.
\<close>

definition live :: "int \<Rightarrow> message \<Rightarrow> bool" where
  "live current_time m =
     (case expires_at m of
        None \<Rightarrow> True
      | Some e \<Rightarrow> bson_date current_time < bson_date e)"

definition get_messages :: "int \<Rightarrow> state \<Rightarrow> message list \<times> state" where
  "get_messages current_time st =
     (take 1000 (sort_key timestamp (filter (live current_time) (messages st))), st)"

subsection \<open>Sample inputs\<close>

text \<open>An empty server, and the same server with two viewers connected.\<close>

definition empty_state :: state where
  "empty_state =
     \<lparr>messages = [], files = (\<lambda>p. None), active_connections = [],
      broken = (\<lambda>c. False), received = [], trace = []\<rparr>"

definition lobby :: state where
  "lobby = connect 2 (connect 1 empty_state)"

text \<open>The lobby after the socket of viewer 1 has died: a send to it raises.\<close>

definition stale_lobby :: state where
  "stale_lobby = lobby\<lparr>broken := (\<lambda>c. c = 1)\<rparr>"

text \<open>A request that posts a picture with a lifetime of two seconds.\<close>

definition photo_env :: create_env where
  "photo_env =
     \<lparr>clock_expiry = 1000000, file_uuid = ''f1'', message_uuid = ''m1'',
      clock_timestamp = 1000005, discord_response = PostStatus 204\<rparr>"

definition photo_form :: form where
  "photo_form =
     \<lparr>form_content = Some ''hello'', form_username = Some ''ann'',
      form_ttl_seconds = Some 2, form_send_to_discord = None,
      form_file = Some \<lparr>filename = Some ''cat.png'', body = ''abc''\<rparr>\<rparr>"

definition photo_store :: state where
  "photo_store = snd (create_message photo_env photo_form lobby)"

text \<open>
  A second request, one second later: a text without a \<open>ttl_seconds\<close> field, to be relayed,
  while the webhook cannot be reached.
\<close>

definition note_env :: create_env where
  "note_env =
     \<lparr>clock_expiry = 2000000, file_uuid = ''f2'', message_uuid = ''m2'',
      clock_timestamp = 2000007, discord_response = PostRaises\<rparr>"

definition note_form :: form where
  "note_form =
     \<lparr>form_content = Some ''see you'', form_username = Some ''bob'',
      form_ttl_seconds = None, form_send_to_discord = Some True, form_file = None\<rparr>"

definition chat_store :: state where
  "chat_store = snd (create_message note_env note_form photo_store)"

text \<open>The message that the second request returns; the store keeps its \<open>bson_document\<close>.\<close>

definition note_message :: message where
  "note_message =
     \<lparr>id_field = ''m2'', content = ''see you'', username = ''bob'', timestamp = 2000007,
      ttl_seconds = Some 3600, expires_at = Some 3602000000,
      file_path = None, file_name = None, file_size = None\<rparr>"

text \<open>The picture request with a script in place of the picture.\<close>

definition php_form :: form where
  "php_form = photo_form\<lparr>form_file := Some \<lparr>filename = Some ''x.php'', body = ''abc''\<rparr>\<rparr>"




text \<open>
  Documents numbered by their timestamp in milliseconds, each with a lifetime of an hour; a document without
  an expiry, as a writer other than \<open>create_message\<close> may leave one; and a collection of 1001
  documents.
\<close>

definition numbered :: "nat \<Rightarrow> message" where
  "numbered i =
     \<lparr>id_field = replicate (Suc i) CHR ''m'', content = ''tick'', username = ''clock'',
      timestamp = int i * 1000, ttl_seconds = Some 3600,
      expires_at = Some (int i * 1000 + 3600000000),
      file_path = None, file_name = None, file_size = None\<rparr>"

definition pinned_message :: message where
  "pinned_message = (numbered 0)\<lparr>ttl_seconds := None, expires_at := None\<rparr>"

definition pinned_store :: state where
  "pinned_store = empty_state\<lparr>messages := [pinned_message]\<rparr>"

definition crowded_store :: state where
  "crowded_store = empty_state\<lparr>messages := map numbered [0..<1001]\<rparr>"

section \<open>Properties\<close>

subsection \<open>Lower case and path suffixes\<close>

lemma of_char_lower_char:
  "(of_char (lower_char c) :: nat) =
     (let n = of_char c in
      if (65 \<le> n \<and> n \<le> 90) \<or> (192 \<le> n \<and> n \<le> 222 \<and> n \<noteq> 215) then n + 32 else n)"
  by (simp add: lower_char_def Let_def)

text \<open>No character below the capital letters is produced or changed by \<open>lower_char\<close>.\<close>

lemma lower_char_eq_iff:
  assumes "(of_char d :: nat) < 65"
  shows "lower_char c = d \<longleftrightarrow> c = d"
proof -
  have "lower_char c = d \<longleftrightarrow> (of_char (lower_char c) :: nat) = of_char d"
    by simp
  also have "\<dots> \<longleftrightarrow> (of_char c :: nat) = of_char d"
    using assms by (auto simp: of_char_lower_char Let_def)
  also have "\<dots> \<longleftrightarrow> c = d"
    by simp
  finally show ?thesis .
qed

lemma lower_char_slash [simp]: "lower_char c = CHR ''/'' \<longleftrightarrow> c = CHR ''/''"
  by (rule lower_char_eq_iff) simp

lemma lower_char_dot [simp]: "lower_char c = CHR ''.'' \<longleftrightarrow> c = CHR ''.''"
  by (rule lower_char_eq_iff) simp

lemma lower_char_idem [simp]: "lower_char (lower_char c) = lower_char c"
proof -
  have "(of_char (lower_char (lower_char c)) :: nat) = of_char (lower_char c)"
    by (simp add: of_char_lower_char Let_def)
  then show ?thesis by simp
qed

lemma lower_idem [simp]: "lower (lower s) = lower s"
  by (simp add: lower_def)

lemma lower_Nil [simp]: "lower [] = []"
  by (simp add: lower_def)

lemma lower_eq_Nil [simp]: "lower p = [] \<longleftrightarrow> p = []"
  by (simp add: lower_def)

lemma lower_eq_dot [simp]: "lower p = ''.'' \<longleftrightarrow> p = ''.''"
  by (cases p) (auto simp: lower_def)

lemma lower_append: "lower (a @ b) = lower a @ lower b"
  by (simp add: lower_def)

lemma split_sep_not_Nil [simp]: "split_sep sep s \<noteq> []"
  by (induction s) (auto split: list.splits)

lemma split_sep_lower: "split_sep CHR ''/'' (lower s) = map lower (split_sep CHR ''/'' s)"
  by (induction s) (auto simp: lower_def split: list.splits)

lemma path_parts_lower: "path_parts (lower s) = map lower (path_parts s)"
  by (simp add: path_parts_def split_sep_lower filter_map comp_def)

lemma path_name_lower: "path_name (lower s) = lower (path_name s)"
  by (simp add: path_name_def path_parts_lower last_map split: list.splits)

lemma rfind_lower: "rfind CHR ''.'' (lower s) = rfind CHR ''.'' s"
  by (induction s) (auto simp: lower_def split: option.splits)

lemma path_suffix_lower: "path_suffix (lower s) = lower (path_suffix s)"
  by (simp add: path_suffix_def Let_def path_name_lower rfind_lower split: option.splits)
     (simp add: lower_def drop_map)

lemma is_file_allowed_lower: "is_file_allowed (lower s) = is_file_allowed s"
  by (simp add: is_file_allowed_def path_suffix_lower)

text \<open>
  A name made of a stem without slashes and one of the three extensions, in any mix of upper
  and lower case, is refused.
\<close>

lemma split_sep_no_sep: "sep \<notin> set s \<Longrightarrow> split_sep sep s = [s]"
  by (induction s) auto

lemma path_name_plain:
  "CHR ''/'' \<notin> set s \<Longrightarrow> s \<noteq> [] \<Longrightarrow> s \<noteq> ''.'' \<Longrightarrow> path_name s = s"
  by (simp add: path_name_def path_parts_def split_sep_no_sep)

lemma rfind_absent: "c \<notin> set e \<Longrightarrow> rfind c e = None"
  by (induction e) auto

lemma rfind_last_occurrence: "c \<notin> set e \<Longrightarrow> rfind c (stem @ c # e) = Some (length stem)"
  by (induction stem) (auto simp: rfind_absent)

lemma path_suffix_stem_ext:
  assumes "stem \<noteq> []" and "CHR ''/'' \<notin> set stem" and "e \<noteq> []"
    and "CHR ''.'' \<notin> set e" and "CHR ''/'' \<notin> set e"
  shows "path_suffix (stem @ CHR ''.'' # e) = CHR ''.'' # e"
proof -
  from assms have "path_name (stem @ CHR ''.'' # e) = stem @ CHR ''.'' # e"
    by (intro path_name_plain) (auto simp: append_eq_Cons_conv)
  with assms show ?thesis
    by (simp add: path_suffix_def rfind_last_occurrence)
qed

lemma slash_eq_lower_char: "CHR ''/'' = lower_char c \<longleftrightarrow> c = CHR ''/''"
  by (metis lower_char_slash)

lemma slash_in_lower: "CHR ''/'' \<in> set (lower s) \<longleftrightarrow> CHR ''/'' \<in> set s"
proof (induction s)
  case Nil
  show ?case by simp
next
  case (Cons x xs)
  have "lower (x # xs) = lower_char x # lower xs"
    by (simp add: lower_def)
  with Cons show ?case
    by (simp add: slash_eq_lower_char eq_commute [of "CHR ''/''" x])
qed

lemma blocked_extension_names:
  assumes "stem \<noteq> []" and "CHR ''/'' \<notin> set stem" and "lower ext \<in> BLOCKED_EXTENSIONS"
  shows "\<not> is_file_allowed (stem @ ext)"
proof -
  have "CHR ''/'' \<notin> set (lower stem)"
    using assms(2) by (simp add: slash_in_lower)
  with assms(1) have s: "lower stem \<noteq> []" "CHR ''/'' \<notin> set (lower stem)"
    by simp_all
  from assms(3) have "path_suffix (lower stem @ lower ext) = lower ext"
    using path_suffix_stem_ext [OF s]
    by (auto simp: BLOCKED_EXTENSIONS_def)
  then have "lower (path_suffix (stem @ ext)) = lower ext"
    by (simp add: lower_append flip: path_suffix_lower)
  with assms(3) show ?thesis
    by (simp add: is_file_allowed_def)
qed

subsection \<open>What a broadcast and a sweep leave alone\<close>

lemma messages_broadcast [simp]: "messages (broadcast ev st) = messages st"
  by (simp add: broadcast_def split: prod.splits)

lemma files_broadcast [simp]: "files (broadcast ev st) = files st"
  by (simp add: broadcast_def split: prod.splits)

lemma broken_broadcast [simp]: "broken (broadcast ev st) = broken st"
  by (simp add: broadcast_def split: prod.splits)

lemma trace_broadcast [simp]: "trace (broadcast ev st) = trace st @ [Broadcast ev]"
  by (simp add: broadcast_def split: prod.splits)

text \<open>
  The second query of a pass runs on the collection the first one has already emptied of
  expired documents, so it finds nothing.
\<close>

lemma filter_expired_kept:
  "filter (\<lambda>m. expired t m \<and> file_path m \<noteq> None) (filter (\<lambda>m. \<not> expired t m) ms) = []"
  by (induction ms) auto

lemma cleanup_pass_eq:
  "cleanup_pass t st =
     (let n = length (filter (expired t) (messages st));
          st1 = st\<lparr>messages := filter (\<lambda>m. \<not> expired t m) (messages st),
                    trace := trace st @ [DbDeleteMany n]\<rparr>
      in if 0 < n then broadcast (Cleanup n) st1 else st1)"
  by (simp add: cleanup_pass_def delete_many_def Let_def filter_expired_kept)

lemma files_cleanup_pass: "files (cleanup_pass t st) = files st"
  by (simp add: cleanup_pass_eq Let_def)

lemma messages_cleanup_pass:
  "messages (cleanup_pass t st) = filter (\<lambda>m. \<not> expired t m) (messages st)"
  by (simp add: cleanup_pass_eq Let_def)

lemma trace_cleanup_pass:
  "trace (cleanup_pass t st) =
     trace st @ DbDeleteMany (snd (delete_many (expired t) (messages st)))
       # (if 0 < snd (delete_many (expired t) (messages st))
          then [Broadcast (Cleanup (snd (delete_many (expired t) (messages st))))] else [])"
  by (simp add: cleanup_pass_eq Let_def delete_many_def)

lemma is_file_allowed_Nil: "is_file_allowed []"
  by (simp add: is_file_allowed_def path_suffix_def path_name_def path_parts_def
      BLOCKED_EXTENSIONS_def)

subsection \<open>What \<open>create_message\<close> does with a request it accepts\<close>



lemma create_message_missing_field:
  "form_required (form_content req) = None \<or> form_required (form_username req) = None \<Longrightarrow>
     create_message env req st = (Inl RequestValidationError, st)"
  by (auto simp: create_message_def split: option.splits)

text \<open>Cutting a date to milliseconds: never later, monotone, and done once.\<close>

lemma bson_date_le: "bson_date t \<le> t"
  by (simp add: bson_date_def)


lemma bson_date_idem [simp]: "bson_date (bson_date t) = bson_date t"
  by (simp add: bson_date_def)

lemma bson_date_millis [simp]: "bson_date (k * 1000) = k * 1000"
  by (simp add: bson_date_def)

lemma expires_at_bson_document [simp]:
  "expires_at (bson_document m) = map_option bson_date (expires_at m)"
  by (simp add: bson_document_def)

lemma datetime_add_Inr:
  "datetime_add now s = Inr e \<longleftrightarrow> e = now + s * 1000000 \<and> 0 \<le> e \<and> e \<le> DATETIME_MAX"
  by (auto simp: datetime_add_def Let_def)

lemma active_connections_broadcast_trace [simp]:
  "active_connections (broadcast ev (st\<lparr>trace := x\<rparr>)) = active_connections (broadcast ev st)"
  by (simp add: broadcast_def split: prod.splits)

lemma received_broadcast_trace [simp]:
  "received (broadcast ev (st\<lparr>trace := x\<rparr>)) = received (broadcast ev st)"
  by (simp add: broadcast_def split: prod.splits)

lemma create_message_no_file:
  assumes "form_required (form_content req) = Some c"
    and "form_required (form_username req) = Some u"
    and "attachment_of req = None"
    and "datetime_add (clock_expiry env)
           (case form_ttl_seconds req of None \<Rightarrow> 3600 | Some t \<Rightarrow> t) = Inr e"
  shows "create_message env req st =
    (let m = \<lparr>id_field = message_uuid env, content = c, username = u,
               timestamp = clock_timestamp env,
               ttl_seconds = Some (case form_ttl_seconds req of None \<Rightarrow> 3600 | Some t \<Rightarrow> t),
               expires_at = Some e, file_path = None, file_name = None, file_size = None\<rparr>;
         w = send_to_discord_webhook (files st) (discord_response env)
               (''**'' @ u @ ''**: '' @ c) None None;
         relay = (if (case form_send_to_discord req of None \<Rightarrow> False | Some b \<Rightarrow> b)
                  then [Relay (fst w) (snd w)] else [])
     in (Inr m, broadcast (NewMessage m)
                  (st\<lparr>messages := messages st @ [bson_document m],
                      trace := trace st @ [DbInsert m] @ relay\<rparr>)))"
  using assms
  by (simp add: create_message_def Let_def case_prod_beta)

lemma create_message_with_file:
  assumes "form_required (form_content req) = Some c"
    and "form_required (form_username req) = Some u"
    and "attachment_of req = Some (n, b)" and "is_file_allowed n"
    and "datetime_add (clock_expiry env)
           (case form_ttl_seconds req of None \<Rightarrow> 3600 | Some t \<Rightarrow> t) = Inr e"
  shows "create_message env req st =
    (let p = ''uploads/'' @ file_uuid env @ path_suffix n;
         m = \<lparr>id_field = message_uuid env, content = c, username = u,
               timestamp = clock_timestamp env,
               ttl_seconds = Some (case form_ttl_seconds req of None \<Rightarrow> 3600 | Some t \<Rightarrow> t),
               expires_at = Some e, file_path = Some p, file_name = Some n,
               file_size = Some (length b)\<rparr>;
         w = send_to_discord_webhook ((files st)(p \<mapsto> b)) (discord_response env)
               (''**'' @ u @ ''**: '' @ c) (Some p) (Some n);
         relay = (if (case form_send_to_discord req of None \<Rightarrow> False | Some b \<Rightarrow> b)
                  then [Relay (fst w) (snd w)] else [])
     in (Inr m, broadcast (NewMessage m)
                  (st\<lparr>files := (files st)(p \<mapsto> b),
                      messages := messages st @ [bson_document m],
                      trace := trace st @ [FileWrite p, DbInsert m] @ relay\<rparr>)))"
  using assms
  by (simp add: create_message_def Let_def case_prod_beta)

lemma create_message_Inr_cases:
  assumes "fst (create_message env req st) = Inr m"
  obtains c u e where "form_required (form_content req) = Some c"
    and "form_required (form_username req) = Some u"
    and "case attachment_of req of None \<Rightarrow> True | Some (n, b) \<Rightarrow> is_file_allowed n"
    and "datetime_add (clock_expiry env)
           (case form_ttl_seconds req of None \<Rightarrow> 3600 | Some t \<Rightarrow> t) = Inr e"
proof -
  from assms obtain c u where cu: "form_required (form_content req) = Some c"
      "form_required (form_username req) = Some u"
    using create_message_missing_field [of req env st]
    by (cases "form_required (form_content req)"; cases "form_required (form_username req)")
      auto
  have al: "case attachment_of req of None \<Rightarrow> True | Some (n, b) \<Rightarrow> is_file_allowed n"
  proof (rule ccontr)
    assume "\<not> ?thesis"
    then obtain n b where "attachment_of req = Some (n, b)" "\<not> is_file_allowed n"
      by (auto split: option.splits)
    with cu have "create_message env req st =
        (Inl (HTTPException 400 ''File type not allowed''), st)"
      by (simp add: create_message_def Let_def)
    with assms show False by simp
  qed
  obtain e where "datetime_add (clock_expiry env)
           (case form_ttl_seconds req of None \<Rightarrow> 3600 | Some t \<Rightarrow> t) = Inr e"
  proof (cases "datetime_add (clock_expiry env)
           (case form_ttl_seconds req of None \<Rightarrow> 3600 | Some t \<Rightarrow> t)")
    case (Inl err)
    with cu al have "create_message env req st = (Inl err, st)"
      by (auto simp: create_message_def Let_def split: option.splits)
    with assms show ?thesis by simp
  next
    case (Inr e)
    with that show ?thesis by blast
  qed
  with cu al that show ?thesis by blast
qed

text \<open>What every accepted request stores.\<close>

lemma create_message_stores:
  assumes "fst (create_message env req st) = Inr m"
  shows "messages (snd (create_message env req st)) = messages st @ [bson_document m]
    \<and> ttl_seconds m = Some (case form_ttl_seconds req of None \<Rightarrow> 3600 | Some t \<Rightarrow> t)
    \<and> expires_at m =
        Some (clock_expiry env
              + (case form_ttl_seconds req of None \<Rightarrow> 3600 | Some t \<Rightarrow> t) * 1000000)
    \<and> (case attachment_of req of
          None \<Rightarrow> file_path m = None \<and> files (snd (create_message env req st)) = files st
        | Some (n, b) \<Rightarrow>
            file_path m = Some (''uploads/'' @ file_uuid env @ path_suffix n)
            \<and> files (snd (create_message env req st)) =
                (files st)(''uploads/'' @ file_uuid env @ path_suffix n \<mapsto> b))"
proof -
  from assms obtain c u e where cu: "form_required (form_content req) = Some c"
      "form_required (form_username req) = Some u"
    and al: "case attachment_of req of None \<Rightarrow> True | Some (n, b) \<Rightarrow> is_file_allowed n"
    and e: "datetime_add (clock_expiry env)
           (case form_ttl_seconds req of None \<Rightarrow> 3600 | Some t \<Rightarrow> t) = Inr e"
    by (rule create_message_Inr_cases)
  from e have e': "e = clock_expiry env
      + (case form_ttl_seconds req of None \<Rightarrow> 3600 | Some t \<Rightarrow> t) * 1000000"
    by (simp add: datetime_add_Inr)
  show ?thesis
  proof (cases "attachment_of req")
    case None
    from assms show ?thesis
      unfolding create_message_no_file [OF cu None e]
      by (auto simp: Let_def e' None)
  next
    case (Some nb)
    obtain n b where nb: "nb = (n, b)" by (cases nb)
    with Some al have a: "attachment_of req = Some (n, b)" and i: "is_file_allowed n"
      by simp_all
    from assms show ?thesis
      unfolding create_message_with_file [OF cu a i e]
      by (auto simp: Let_def e' a)
  qed
qed

lemma messages_cleanup_expired_messages:
  "messages (cleanup_expired_messages ts s) =
     filter (\<lambda>m. \<forall>t\<in>set ts. \<not> expired t m) (messages s)"
  by (induction ts arbitrary: s) (auto simp: messages_cleanup_pass intro: filter_cong)

lemma messages_auto_clear_pass: "messages (auto_clear_pass s) = []"
  by (simp add: auto_clear_pass_def delete_many_def Let_def)

section \<open>The claims\<close>

subsection \<open>C1: the sweep and the attachment files\<close>

text \<open>
  C1 says that a sweep which removes a message with an attachment also deletes the
  attachment's file.  The sweeper deletes the expired documents first and looks for the
  expired documents with a \<open>file_path\<close> afterwards, so the second query is empty and no file
  is unlinked (\<open>files_cleanup_pass\<close>).  Here the picture message expires at 3000000; the pass
  at 5000000 removes the message and leaves \<^verbatim>\<open>uploads/f1.png\<close> on disk.
\<close>

theorem sweep_leaves_attachment_file:
  "map file_path (messages photo_store) = [Some ''uploads/f1.png'']
   \<and> map expires_at (messages photo_store) = [Some 3000000]
   \<and> files photo_store ''uploads/f1.png'' = Some ''abc''
   \<and> messages (cleanup_pass 5000000 photo_store) = []
   \<and> files (cleanup_pass 5000000 photo_store) ''uploads/f1.png'' = Some ''abc''"
  by code_simp

subsection \<open>C10: the deny-list ignores case\<close>

text \<open>
  C10: the extension check is case-insensitive.  Two file names that differ only in the case
  of their letters get the same verdict from \<open>is_file_allowed\<close>.
\<close>

theorem is_file_allowed_ignores_case:
  "lower a = lower b \<Longrightarrow> is_file_allowed a = is_file_allowed b"
  by (metis is_file_allowed_lower)

text \<open>The names \<^verbatim>\<open>x.PHP\<close> and \<^verbatim>\<open>x.php\<close>: both are refused.\<close>

theorem is_file_allowed_ignores_case_witness:
  "lower ''x.PHP'' = lower ''x.php''
   \<and> is_file_allowed ''x.PHP'' = is_file_allowed ''x.php''
   \<and> \<not> is_file_allowed ''x.php''"
proof -
  have h: "lower ''x.PHP'' = lower ''x.php''"
    by code_simp
  have "\<not> is_file_allowed ''x.php''"
    by code_simp
  with h is_file_allowed_ignores_case [OF h] show ?thesis
    by simp
qed

subsection \<open>C3: a deny-listed extension is refused before any write\<close>

text \<open>
  C3: when the upload's file name has a suffix on the deny-list, \<open>create_message\<close> fails
  with a client error and returns the state it was given: no document is inserted and no
  file is written.  The error is the 400 of the handler, or the 422 of the form when a
  required field is missing or empty as well.
\<close>

theorem create_message_rejects_blocked_extension:
  assumes "form_file req = Some f" and "filename f = Some n"
    and "lower (path_suffix n) \<in> BLOCKED_EXTENSIONS"
  shows "create_message env req st =
           (Inl (if form_required (form_content req) = None
                    \<or> form_required (form_username req) = None
                 then RequestValidationError
                 else HTTPException 400 ''File type not allowed''), st)"
proof -
  from assms(3) have blocked: "\<not> is_file_allowed n"
    by (simp add: is_file_allowed_def)
  with is_file_allowed_Nil have "n \<noteq> []"
    by auto
  with assms(1,2) have "attachment_of req = Some (n, body f)"
    by (simp add: attachment_of_def)
  with blocked show ?thesis
    by (auto simp: create_message_def Let_def split: option.splits)
qed

text \<open>The upload \<^verbatim>\<open>x.php\<close> sent to the server that holds the picture message.\<close>

theorem create_message_rejects_blocked_extension_witness:
  "form_file php_form = Some \<lparr>filename = Some ''x.php'', body = ''abc''\<rparr>
   \<and> lower (path_suffix ''x.php'') \<in> BLOCKED_EXTENSIONS
   \<and> create_message photo_env php_form photo_store =
       (Inl (HTTPException 400 ''File type not allowed''), photo_store)"
proof -
  have f: "form_file php_form = Some \<lparr>filename = Some ''x.php'', body = ''abc''\<rparr>"
    by (simp add: php_form_def)
  have n: "filename \<lparr>filename = Some ''x.php'', body = ''abc''\<rparr> = Some ''x.php''"
    by simp
  have b: "lower (path_suffix ''x.php'') \<in> BLOCKED_EXTENSIONS"
    by code_simp
  have "form_required (form_content php_form) \<noteq> None
      \<and> form_required (form_username php_form) \<noteq> None"
    by (simp add: php_form_def photo_form_def form_required_def)
  with create_message_rejects_blocked_extension [OF f n b, of photo_env photo_store] f b
  show ?thesis
    by simp
qed

subsection \<open>C6: a failed send and the other viewers\<close>

text \<open>
  C6 says that a failed delivery to one connection does not keep the event from any other
  connection.  The loop of \<open>broadcast\<close> removes the failed connection from the list it is
  iterating over, so the connection after it moves into the slot just visited and is
  skipped.  With viewers 1 and 2 registered and the socket of viewer 1 dead, a broadcast
  removes viewer 1 and delivers nothing to viewer 2, although viewer 2 is healthy and
  stays registered.
\<close>

theorem broadcast_skips_viewer_after_failure:
  "active_connections stale_lobby = [1, 2]
   \<and> broken stale_lobby 1 \<and> \<not> broken stale_lobby 2
   \<and> received (broadcast (Cleanup 1) stale_lobby) = []
   \<and> active_connections (broadcast (Cleanup 1) stale_lobby) = [2]"
  by code_simp

subsection \<open>C9: disconnecting a connection that is not registered\<close>

text \<open>
  C9 says that \<open>disconnect\<close> of a connection that is not registered is a no-op and raises
  nothing.  \<^verbatim>\<open>list.remove\<close> raises \<^verbatim>\<open>ValueError\<close> there.  The case arises without any
  misuse: a broadcast drops viewer 1 after a failed send, and when the viewer's socket
  handler then sees the disconnect and calls \<open>disconnect\<close>, the call raises.
\<close>

theorem disconnect_after_pruning_raises:
  "active_connections stale_lobby = [1, 2]
   \<and> active_connections (broadcast (Cleanup 1) stale_lobby) = [2]
   \<and> disconnect 1 (broadcast (Cleanup 1) stale_lobby) = Inl ValueError"
proof -
  have "active_connections stale_lobby = [1, 2]
      \<and> active_connections (broadcast (Cleanup 1) stale_lobby) = [2]"
    by code_simp
  then show ?thesis
    by (simp add: disconnect_def)
qed

subsection \<open>C7: the relay\<close>

text \<open>
  C7 says that the relay is invoked after the message is persisted and after the
  \<open>new_message\<close> broadcast.  The handler calls the webhook between the insert and the
  broadcast: these are the calls of the text request, in order.
\<close>

theorem relay_precedes_broadcast:
  "form_send_to_discord note_form = Some True
   \<and> drop (length (trace photo_store)) (trace (snd (create_message note_env note_form photo_store)))
       = [DbInsert note_message, Relay (JsonPost ''**bob**: see you'') False,
          Broadcast (NewMessage note_message)]"
  by code_simp

lemma clock_expiry_discord_response [simp]:
  "clock_expiry (env\<lparr>discord_response := r\<rparr>) = clock_expiry env"
  by simp

text \<open>
  C7 as the code has it.  For an accepted request that asks for the relay, the calls are
  the file write (if there is an upload), the insert, the relay, and then the broadcast.
  Whatever the webhook does, the handler returns the same message and leaves the same
  documents, files, registry and deliveries.
\<close>

theorem relay_after_insert_failure_swallowed:
  assumes "form_send_to_discord req = Some True"
    and "fst (create_message env req st) = Inr m"
  shows "(\<exists>rq ok. trace (snd (create_message env req st)) =
            trace st @ (case file_path m of None \<Rightarrow> [] | Some p \<Rightarrow> [FileWrite p])
              @ [DbInsert m, Relay rq ok, Broadcast (NewMessage m)])
    \<and> fst (create_message (env\<lparr>discord_response := r\<rparr>) req st) = Inr m
    \<and> messages (snd (create_message (env\<lparr>discord_response := r\<rparr>) req st))
        = messages (snd (create_message env req st))
    \<and> files (snd (create_message (env\<lparr>discord_response := r\<rparr>) req st))
        = files (snd (create_message env req st))
    \<and> active_connections (snd (create_message (env\<lparr>discord_response := r\<rparr>) req st))
        = active_connections (snd (create_message env req st))
    \<and> received (snd (create_message (env\<lparr>discord_response := r\<rparr>) req st))
        = received (snd (create_message env req st))"
proof -
  from assms(2) obtain c u e where cu: "form_required (form_content req) = Some c"
      "form_required (form_username req) = Some u"
    and al: "case attachment_of req of None \<Rightarrow> True | Some (n, b) \<Rightarrow> is_file_allowed n"
    and e: "datetime_add (clock_expiry env)
           (case form_ttl_seconds req of None \<Rightarrow> 3600 | Some t \<Rightarrow> t) = Inr e"
    by (rule create_message_Inr_cases)
  from e have e': "datetime_add (clock_expiry (env\<lparr>discord_response := r\<rparr>))
           (case form_ttl_seconds req of None \<Rightarrow> 3600 | Some t \<Rightarrow> t) = Inr e"
    by simp
  show ?thesis
  proof (cases "attachment_of req")
    case None
    from assms show ?thesis
      unfolding create_message_no_file [OF cu None e] create_message_no_file [OF cu None e']
      by (auto simp: Let_def)
  next
    case (Some nb)
    obtain n b where "nb = (n, b)" by (cases nb)
    with Some al have a: "attachment_of req = Some (n, b)" and i: "is_file_allowed n"
      by simp_all
    from assms show ?thesis
      unfolding create_message_with_file [OF cu a i e] create_message_with_file [OF cu a i e']
      by (auto simp: Let_def)
  qed
qed

text \<open>The text request with the webhook unreachable, against the webhook answering 204.\<close>

theorem relay_after_insert_failure_swallowed_witness:
  "form_send_to_discord note_form = Some True
   \<and> fst (create_message note_env note_form photo_store) = Inr note_message
   \<and> discord_response note_env = PostRaises
   \<and> (\<exists>rq ok. trace chat_store =
         trace photo_store @ [DbInsert note_message, Relay rq ok,
                              Broadcast (NewMessage note_message)])
   \<and> fst (create_message (note_env\<lparr>discord_response := PostStatus 204\<rparr>) note_form photo_store)
       = Inr note_message
   \<and> messages (snd (create_message (note_env\<lparr>discord_response := PostStatus 204\<rparr>)
                      note_form photo_store)) = messages chat_store
   \<and> received (snd (create_message (note_env\<lparr>discord_response := PostStatus 204\<rparr>)
                      note_form photo_store)) = received chat_store"
proof -
  have s: "form_send_to_discord note_form = Some True"
    by (simp add: note_form_def)
  have m: "fst (create_message note_env note_form photo_store) = Inr note_message"
    by code_simp
  have d: "discord_response note_env = PostRaises \<and> file_path note_message = None"
    by (simp add: note_env_def note_message_def)
  from relay_after_insert_failure_swallowed [OF s m, of "PostStatus 204"] s m d
  show ?thesis
    by (simp add: chat_store_def)
qed

subsection \<open>C5: retrieval\<close>

lemma live_numbered: "live 0 (numbered i)"
proof -
  have "int i * 1000 + 3600000000 = (int i + 3600000) * 1000"
    by simp
  then have "bson_date (int i * 1000 + 3600000000) = int i * 1000 + 3600000000"
    by (simp only: bson_date_millis)
  then show ?thesis
    by (simp add: live_def numbered_def bson_date_def)
qed

lemma timestamp_numbered [simp]: "timestamp (numbered i) = int i * 1000"
  by (simp add: numbered_def)

lemma sorted_numbered: "sorted (map timestamp (map numbered [a..<b]))"
  by (induction b) (auto simp: sorted_append)

lemma get_messages_crowded:
  "fst (get_messages 0 crowded_store) = map numbered [0..<1000]"
proof -
  have f: "filter (live 0) (map numbered [0..<1001]) = map numbered [0..<1001]"
    by (simp add: filter_id_conv live_numbered)
  have s: "sort_key timestamp (map numbered [0..<1001]) = map numbered [0..<1001]"
    by (rule sort_key_id_if_sorted) (rule sorted_numbered)
  have "take 1000 (map numbered [0..<1001]) = map numbered (take 1000 [0..<1001])"
    by (simp only: take_map)
  also have "take 1000 [0..<1001] = [0..<1000]"
    by (simp add: take_upt)
  finally show ?thesis
    by (simp add: get_messages_def crowded_store_def empty_state_def f s)
qed

text \<open>
  C5 says that retrieval returns all messages that are live.  The query stops at 1000
  documents: of 1001 live messages, the one with the latest timestamp is not returned.
\<close>

theorem get_messages_drops_live_message:
  "numbered 1000 \<in> set (messages crowded_store)
   \<and> live 0 (numbered 1000)
   \<and> numbered 1000 \<notin> set (fst (get_messages 0 crowded_store))
   \<and> length (fst (get_messages 0 crowded_store)) = 1000"
proof -
  have "numbered 1000 \<in> set (messages crowded_store)"
    by (simp add: crowded_store_def empty_state_def)
  moreover have "numbered 1000 \<notin> set (map numbered [0..<1000])"
  proof
    assume "numbered 1000 \<in> set (map numbered [0..<1000])"
    then obtain i where "i < 1000" and "numbered 1000 = numbered i"
      by auto
    then have "timestamp (numbered 1000) = timestamp (numbered i)"
      by simp
    with \<open>i < 1000\<close> show False
      by simp
  qed
  ultimately show ?thesis
    by (simp add: get_messages_crowded live_numbered)
qed

lemma sorted_take_le_drop:
  assumes "sorted (map f xs)"
  shows "\<forall>x\<in>set (take n xs). \<forall>y\<in>set (drop n xs). f x \<le> f y"
proof -
  have "sorted (map f (take n xs) @ map f (drop n xs))"
    using assms by (simp flip: map_append)
  then show ?thesis
    by (auto simp: sorted_append)
qed

text \<open>
  C5 as the code has it.  \<open>get_messages\<close> leaves the state as it is.  Its result is sorted
  by timestamp, consists of live messages of the collection, and has 1000 entries or all
  the live messages if there are fewer; a live message that is left out has a timestamp no
  earlier than any message returned.  With at most 1000 live messages the result is all
  of them.
\<close>

theorem get_messages_first_thousand_live:
  assumes "get_messages now st = (r, st')"
  shows "st' = st
    \<and> sorted (map timestamp r)
    \<and> length r = min 1000 (length (filter (live now) (messages st)))
    \<and> mset r \<subseteq># mset (filter (live now) (messages st))
    \<and> (\<forall>x\<in>set r. \<forall>y\<in>#(mset (filter (live now) (messages st)) - mset r).
          timestamp x \<le> timestamp y)
    \<and> (length (filter (live now) (messages st)) \<le> 1000 \<longrightarrow>
          mset r = mset (filter (live now) (messages st)))"
proof -
  define s where "s = sort_key timestamp (filter (live now) (messages st))"
  from assms have st: "st' = st" and r: "r = take 1000 s"
    by (auto simp: get_messages_def s_def)
  have ms: "mset s = mset (filter (live now) (messages st))"
    by (simp add: s_def)
  have ss: "sorted (map timestamp s)"
    by (simp add: s_def)
  have len: "length s = length (filter (live now) (messages st))"
    by (simp add: s_def)
  have split: "mset s = mset r + mset (drop 1000 s)"
    unfolding r by (simp flip: mset_append)
  have 1: "sorted (map timestamp r)"
    unfolding r using ss by (simp add: sorted_wrt_take flip: take_map)
  have 2: "length r = min 1000 (length (filter (live now) (messages st)))"
    unfolding r by (simp add: len min.commute)
  have 3: "mset r \<subseteq># mset (filter (live now) (messages st))"
    using split ms by (metis mset_subset_eq_add_left)
  have d: "mset (filter (live now) (messages st)) - mset r = mset (drop 1000 s)"
    using split ms by (metis add_diff_cancel_left')
  have 4: "\<forall>x\<in>set r. \<forall>y\<in>#(mset (filter (live now) (messages st)) - mset r).
          timestamp x \<le> timestamp y"
  proof (intro ballI)
    fix x y
    assume x: "x \<in> set r"
      and "y \<in># (mset (filter (live now) (messages st)) - mset r)"
    then have "y \<in># mset (drop 1000 s)"
      by (simp only: d)
    then have y: "y \<in> set (drop 1000 s)"
      by simp
    from x have "x \<in> set (take 1000 s)"
      by (simp only: r)
    with y sorted_take_le_drop [OF ss, of 1000] show "timestamp x \<le> timestamp y"
      by blast
  qed
  have 5: "length (filter (live now) (messages st)) \<le> 1000 \<longrightarrow>
          mset r = mset (filter (live now) (messages st))"
    unfolding r using len ms by simp
  from st 1 2 3 4 5 show ?thesis
    by blast
qed


text \<open>
  The server with the picture and the text, read at 6000000: the picture has expired, the
  text is returned.
\<close>

theorem get_messages_first_thousand_live_witness:
  "get_messages 6000000 chat_store = ([bson_document note_message], chat_store)
   \<and> length (messages chat_store) = 2
   \<and> filter (live 6000000) (messages chat_store) = [bson_document note_message]
   \<and> sorted (map timestamp [bson_document note_message])
   \<and> length [bson_document note_message]
        = min 1000 (length (filter (live 6000000) (messages chat_store)))
   \<and> mset [bson_document note_message]
        = mset (filter (live 6000000) (messages chat_store))"
proof -
  have f: "filter (live 6000000) (messages chat_store) = [bson_document note_message]
      \<and> length (messages chat_store) = 2"
    by code_simp
  then have g: "get_messages 6000000 chat_store = ([bson_document note_message], chat_store)"
    by (simp add: get_messages_def)
  from get_messages_first_thousand_live [OF g] f g show ?thesis
    by simp
qed

subsection \<open>C4: a second sweep with nothing new to expire\<close>

lemma deleted_count_zero:
  "\<forall>m\<in>set ms. \<not> expired t m \<Longrightarrow> snd (delete_many (expired t) ms) = 0"
  by (simp add: delete_many_def)

lemma cleanup_pass_nothing_expired:
  assumes "\<forall>m\<in>set (messages st). \<not> expired t m"
  shows "cleanup_pass t st = st\<lparr>trace := trace st @ [DbDeleteMany 0]\<rparr>"
proof -
  from assms have "filter (expired t) (messages st) = []"
    by (simp add: filter_empty_conv)
  moreover from assms have "filter (\<lambda>m. \<not> expired t m) (messages st) = messages st"
    by (simp add: filter_id_conv)
  ultimately show ?thesis
    by (simp add: cleanup_pass_eq)
qed

text \<open>
  C4 says that of two sweeps in succession, with no new expirations between them, only the
  first deletes.  The query of the sweeper is a strict comparison of dates in whole
  milliseconds, so a message that expired in the millisecond of the first clock reading is
  not matched yet.  The picture expires at 3000000.  At 3000999 it is past its expiry and
  retrieval no longer returns it, but the pass at 3000999 deletes nothing; the pass at
  3001000 deletes it and broadcasts.
\<close>

theorem second_sweep_deletes_at_boundary:
  "map expires_at (messages photo_store) = [Some 3000000]
   \<and> fst (get_messages 3000999 photo_store) = []
   \<and> messages (cleanup_pass 3000999 photo_store) = messages photo_store
   \<and> snd (delete_many (expired 3001000) (messages (cleanup_pass 3000999 photo_store))) = 1
   \<and> drop (length (trace photo_store))
        (trace (cleanup_expired_messages [3000999, 3001000] photo_store))
       = [DbDeleteMany 0, DbDeleteMany 1, Broadcast (Cleanup 1)]"
  by code_simp

text \<open>
  C4 as the code has it.  Let every message of the store that the query matches at \<open>t2\<close>
  be matched at \<open>t1\<close> already.  Then the pass at \<open>t1\<close> deletes exactly the messages it
  matches, and the pass at \<open>t2\<close> that follows has a \<open>deleted_count\<close> of zero and changes
  nothing: the only call it makes is its \<^verbatim>\<open>delete_many\<close>, without a broadcast.  For every
  pass, the calls are the \<^verbatim>\<open>delete_many\<close> and then one \<open>cleanup\<close> broadcast with the count,
  the broadcast being there exactly when the count is positive.
\<close>

theorem second_sweep_deletes_nothing:
  assumes "\<forall>m\<in>set (messages st). expired t2 m \<longrightarrow> expired t1 m"
  shows "messages (cleanup_pass t1 st) = filter (\<lambda>m. \<not> expired t1 m) (messages st)
    \<and> snd (delete_many (expired t2) (messages (cleanup_pass t1 st))) = 0
    \<and> cleanup_expired_messages [t1, t2] st =
        (cleanup_pass t1 st)\<lparr>trace := trace (cleanup_pass t1 st) @ [DbDeleteMany 0]\<rparr>
    \<and> trace (cleanup_pass t s) =
        trace s @ DbDeleteMany (snd (delete_many (expired t) (messages s)))
          # (if 0 < snd (delete_many (expired t) (messages s))
             then [Broadcast (Cleanup (snd (delete_many (expired t) (messages s))))]
             else [])"
proof -
  have kept: "messages (cleanup_pass t1 st) = filter (\<lambda>m. \<not> expired t1 m) (messages st)"
    by (rule messages_cleanup_pass)
  with assms have none: "\<forall>m\<in>set (messages (cleanup_pass t1 st)). \<not> expired t2 m"
    by auto
  from kept none show ?thesis
    by (simp add: deleted_count_zero cleanup_pass_nothing_expired trace_cleanup_pass)
qed

text \<open>
  The server with the picture (expires at 3000000) and the text (expires an hour later),
  swept at 5000000 and again at 6000000: the first pass deletes one message and broadcasts,
  the second deletes none and is silent.
\<close>

theorem second_sweep_deletes_nothing_witness:
  "map (expired 5000000) (messages chat_store) = [True, False]
   \<and> map (expired 6000000) (messages chat_store) = [True, False]
   \<and> length (messages (cleanup_pass 5000000 chat_store)) = 1
   \<and> snd (delete_many (expired 6000000) (messages (cleanup_pass 5000000 chat_store))) = 0
   \<and> trace (cleanup_expired_messages [5000000, 6000000] chat_store) =
       trace chat_store @ [DbDeleteMany 1, Broadcast (Cleanup 1), DbDeleteMany 0]"
proof -
  have h: "\<forall>m\<in>set (messages chat_store). expired 6000000 m \<longrightarrow> expired 5000000 m"
    by code_simp
  have e: "map (expired 5000000) (messages chat_store) = [True, False]
      \<and> map (expired 6000000) (messages chat_store) = [True, False]
      \<and> length (messages (cleanup_pass 5000000 chat_store)) = 1"
    by code_simp
  have t: "trace (cleanup_pass 5000000 chat_store) =
      trace chat_store @ [DbDeleteMany 1, Broadcast (Cleanup 1)]"
    by code_simp
  note r = second_sweep_deletes_nothing [OF h, of 0 empty_state]
  from r have c: "snd (delete_many (expired 6000000)
      (messages (cleanup_pass 5000000 chat_store))) = 0"
    by (rule conjunct1 [OF conjunct2])
  from r have "cleanup_expired_messages [5000000, 6000000] chat_store =
      (cleanup_pass 5000000 chat_store)
        \<lparr>trace := trace (cleanup_pass 5000000 chat_store) @ [DbDeleteMany 0]\<rparr>"
    by (rule conjunct1 [OF conjunct2 [OF conjunct2]])
  then have "trace (cleanup_expired_messages [5000000, 6000000] chat_store) =
      trace (cleanup_pass 5000000 chat_store) @ [DbDeleteMany 0]"
    by (simp del: cleanup_expired_messages.simps)
  with t have "trace (cleanup_expired_messages [5000000, 6000000] chat_store) =
      trace chat_store @ [DbDeleteMany 1, Broadcast (Cleanup 1), DbDeleteMany 0]"
    by (simp del: cleanup_expired_messages.simps)
  with e c show ?thesis
    by blast
qed

subsection \<open>C2: a request without \<open>ttl_seconds\<close>\<close>

text \<open>
  C2 says that a message created without \<open>ttl_seconds\<close> has no \<open>expires_at\<close> and is never
  swept.  The form field has the default 3600: the text request, which carries no
  \<open>ttl_seconds\<close>, stores a message with a lifetime of an hour, and the pass one millisecond
  after that hour deletes it.
\<close>

theorem default_ttl_message_is_swept:
  "form_ttl_seconds note_form = None
   \<and> map ttl_seconds (messages (snd (create_message note_env note_form lobby))) = [Some 3600]
   \<and> map expires_at (messages (snd (create_message note_env note_form lobby)))
        = [Some 3602000000]
   \<and> messages (cleanup_pass 3602001000 (snd (create_message note_env note_form lobby))) = []"
  by code_simp

text \<open>
  C2 as the code has it.  A message that \<open>create_message\<close> returns always has a \<open>ttl_seconds\<close>
  and an \<open>expires_at\<close>, and so has the document it stores.  Without the form field they are
  3600 and the clock plus an hour, and a pass removes the document exactly when its clock
  reading, cut to milliseconds, is later than that expiry, cut to milliseconds.  A document
  whose \<open>expires_at\<close> is null survives every run of the sweeper, and the hourly reset empties
  the collection.
\<close>

theorem default_ttl_is_an_hour:
  "(fst (create_message env req st) = Inr m \<longrightarrow>
      messages (snd (create_message env req st)) = messages st @ [bson_document m]
      \<and> ttl_seconds m \<noteq> None \<and> expires_at m \<noteq> None
      \<and> ttl_seconds (bson_document m) \<noteq> None \<and> expires_at (bson_document m) \<noteq> None
      \<and> (form_ttl_seconds req = None \<longrightarrow>
           ttl_seconds m = Some 3600
           \<and> expires_at m = Some (clock_expiry env + 3600 * 1000000)
           \<and> ttl_seconds (bson_document m) = Some 3600
           \<and> expires_at (bson_document m)
                = Some (bson_date (clock_expiry env + 3600 * 1000000))
           \<and> (bson_document m
                  \<in> set (messages (cleanup_pass t (snd (create_message env req st))))
                \<longleftrightarrow> \<not> bson_date (clock_expiry env + 3600 * 1000000) < bson_date t)))
   \<and> (x \<in> set (messages s) \<and> expires_at x = None \<longrightarrow>
        x \<in> set (messages (cleanup_expired_messages ts s)))
   \<and> messages (auto_clear_pass s) = []"
proof (intro conjI impI)
  assume m: "fst (create_message env req st) = Inr m"
  note st = create_message_stores [OF m]
  from st show stored: "messages (snd (create_message env req st))
      = messages st @ [bson_document m]"
    and "ttl_seconds m \<noteq> None" and "expires_at m \<noteq> None"
    and "ttl_seconds (bson_document m) \<noteq> None" and "expires_at (bson_document m) \<noteq> None"
    by (simp_all add: bson_document_def)
  assume d: "form_ttl_seconds req = None"
  with st show "ttl_seconds m = Some 3600"
    and "expires_at m = Some (clock_expiry env + 3600 * 1000000)"
    and "ttl_seconds (bson_document m) = Some 3600"
    and e: "expires_at (bson_document m)
        = Some (bson_date (clock_expiry env + 3600 * 1000000))"
    by (simp_all add: bson_document_def)
  have "expired t (bson_document m)
      \<longleftrightarrow> bson_date (clock_expiry env + 3600 * 1000000) < bson_date t"
    unfolding expired_def e by simp
  with stored show "bson_document m
      \<in> set (messages (cleanup_pass t (snd (create_message env req st))))
    \<longleftrightarrow> \<not> bson_date (clock_expiry env + 3600 * 1000000) < bson_date t"
    by (simp add: messages_cleanup_pass)
next
  assume "x \<in> set (messages s) \<and> expires_at x = None"
  then show "x \<in> set (messages (cleanup_expired_messages ts s))"
    by (simp add: messages_cleanup_expired_messages expired_def)
next
  show "messages (auto_clear_pass s) = []"
    by (rule messages_auto_clear_pass)
qed

text \<open>
  The text request on the server that holds the picture, swept one millisecond after its
  hour, and a store with one document without expiry, swept at two times.
\<close>

theorem default_ttl_is_an_hour_witness:
  "fst (create_message note_env note_form photo_store) = Inr note_message
   \<and> form_ttl_seconds note_form = None
   \<and> ttl_seconds note_message = Some 3600
   \<and> expires_at note_message = Some 3602000000
   \<and> timestamp note_message = 2000007 \<and> timestamp (bson_document note_message) = 2000000
   \<and> messages chat_store = messages photo_store @ [bson_document note_message]
   \<and> bson_document note_message \<in> set (messages (cleanup_pass 3602000999 chat_store))
   \<and> bson_document note_message \<notin> set (messages (cleanup_pass 3602001000 chat_store))
   \<and> pinned_message \<in> set (messages pinned_store) \<and> expires_at pinned_message = None
   \<and> pinned_message \<in> set (messages (cleanup_expired_messages [5000000, 9000000000]
                                        pinned_store))
   \<and> messages (auto_clear_pass pinned_store) = []"
proof -
  have m: "fst (create_message note_env note_form photo_store) = Inr note_message"
    by code_simp
  have d: "form_ttl_seconds note_form = None \<and> clock_expiry note_env = 2000000"
    by (simp add: note_form_def note_env_def)
  have b: "bson_date (2000000 + 3600 * 1000000) = 3602000000
      \<and> bson_date 3602000999 = 3602000000 \<and> bson_date 3602001000 = 3602001000"
    by (simp add: bson_date_def)
  have n: "timestamp note_message = 2000007
      \<and> timestamp (bson_document note_message) = 2000000"
    by (simp add: note_message_def bson_document_def bson_date_def)
  have x: "pinned_message \<in> set (messages pinned_store) \<and> expires_at pinned_message = None"
    by (simp add: pinned_store_def pinned_message_def empty_state_def)
  note r1 = default_ttl_is_an_hour [of note_env note_form photo_store note_message
      3602000999 pinned_message pinned_store "[5000000, 9000000000]"]
  note r2 = default_ttl_is_an_hour [of note_env note_form photo_store note_message
      3602001000 pinned_message pinned_store "[5000000, 9000000000]"]
  from m d b n x r1 r2 show ?thesis
    by (simp add: chat_store_def)
qed

subsection \<open>C8: what \<open>create_message\<close> validates\<close>




end
